theory Spec2Isabelle
  imports Main "HOL-Library.Product_Lexorder"
begin

section \<open>The report scraper (scraper.py) as state-passing functions\<close>

text \<open>
  The program drives a browser, parses the rendered page, fetches documents over HTTP,
  writes them to a local directory and uploads them to Google Drive. Every function of
  scraper.py is translated to a function over an explicit \<open>world\<close>: the console, the
  calls made to the outside (authentication, browser, HTTP), the local file system and
  the Drive. A Python exception is the left injection of a sum, paired with the world as
  it was when the exception was raised. What the outside answers (the page, the HTTP
  responses, whether a wait times out) and the library functions the script calls
  (\<open>strptime\<close>, \<open>str.strip\<close>) are the fields of an environment record.
\<close>

subsection \<open>Exceptions and return values\<close>

datatype error =
    TimeoutException
  | WebDriverException
  | AuthError
  | AttributeError
  | IndexError
  | TypeError
  | ValueError
  | ConnectionError
  | HTTPError nat
  | ApiRequestError
  | FileNotFoundError
  | FileExistsError
  | IsADirectoryError

text \<open>A Python value returned by a function of the script: \<open>None\<close> or an integer.\<close>

datatype pyval = PyNone | PyInt int

subsection \<open>Dates\<close>

text \<open>
  Both \<open>strptime\<close> formats of the script carry a year, a month and a day and no time of
  day, so a parsed \<open>datetime\<close> is the triple (year, month, day) at midnight; Python's
  comparison of two such values is the lexicographic order of the triples.
\<close>

type_synonym datetime = "nat \<times> nat \<times> nat"

definition digit :: "nat \<Rightarrow> char" where
  "digit n = ''0123456789'' ! (n mod 10)"

definition pad2 :: "nat \<Rightarrow> string" where
  "pad2 n = [digit (n div 10), digit n]"

definition pad4 :: "nat \<Rightarrow> string" where
  "pad4 n = [digit (n div 1000), digit (n div 100), digit (n div 10), digit n]"

text \<open>
  \<open>date_obj.strftime('%Y-%m-%d')\<close>: the year, the month and the day in decimal
  digits, on four, two and two places. (For a year below 1000 the C library decides
  whether \<open>%Y\<close> is padded; the model pads it. No property below depends on it.)
\<close>

definition strftime_ymd :: "datetime \<Rightarrow> string" where
  "strftime_ymd d = (case d of (y, m, dd) \<Rightarrow> pad4 y @ ''-'' @ pad2 m @ ''-'' @ pad2 dd)"

subsection \<open>Strings and paths\<close>

text \<open>\<open>s.endswith(suf)\<close>.\<close>

definition endswith :: "string \<Rightarrow> string \<Rightarrow> bool" where
  "endswith s suf = (length suf \<le> length s \<and> drop (length s - length suf) s = suf)"

text \<open>\<open>os.path.join(a, b)\<close>, \<open>os.path.basename(p)\<close> and \<open>os.path.dirname(p)\<close> of posixpath.\<close>

definition os_path_join :: "string \<Rightarrow> string \<Rightarrow> string" where
  "os_path_join a b =
     (if b \<noteq> [] \<and> hd b = CHR ''/'' then b
      else if a = [] \<or> last a = CHR ''/'' then a @ b
      else a @ ''/'' @ b)"

definition os_path_basename :: "string \<Rightarrow> string" where
  "os_path_basename p = rev (takeWhile (\<lambda>c. c \<noteq> CHR ''/'') (rev p))"

definition os_path_dirname :: "string \<Rightarrow> string" where
  "os_path_dirname p =
     (let head = rev (dropWhile (\<lambda>c. c \<noteq> CHR ''/'') (rev p)) in
      if head \<noteq> [] \<and> (\<exists>c \<in> set head. c \<noteq> CHR ''/'')
      then rev (dropWhile (\<lambda>c. c = CHR ''/'') (rev head))
      else head)"

subsection \<open>The parsed page\<close>

text \<open>
  What the script reads of the BeautifulSoup tree. A child of a cell is a string
  (\<open>NavigableString\<close>, which has \<open>strip\<close>) or an element (\<open>Tag\<close>, on which
  \<open>.strip()\<close> raises \<open>TypeError\<close>). A row is the list of its \<open>td\<close> descendants
  and the \<open>href\<close> attribute (\<open>None\<close> when absent) of each of its \<open>a\<close> descendants,
  both in document order. A container is a \<open>div\<close>; \<open>tbody\<close> is \<open>None\<close> when
  \<open>find('tbody')\<close> finds nothing, else the rows \<open>find_all('tr')\<close> returns. A page maps
  an identifier to the first \<open>div\<close> that carries it.
\<close>

datatype node = NavigableString string | Tag

record td =
  contents :: "node list"

record tr =
  tds :: "td list"
  anchors :: "string option list"

record container =
  tbody :: "tr list option"

type_synonym soup = "string \<Rightarrow> container option"

text \<open>
  \<open>report_row.find('a', href=lambda href: href and href.endswith('.pdf'))\<close> followed by
  \<open>pdf_link_tag['href']\<close>: the \<open>href\<close> of the first anchor that has a non-empty
  \<open>href\<close> ending in \<open>.pdf\<close>.
\<close>

definition pdf_href :: "string option \<Rightarrow> bool" where
  "pdf_href h = (case h of None \<Rightarrow> False | Some s \<Rightarrow> s \<noteq> [] \<and> endswith s ''.pdf'')"

definition find_pdf_link :: "tr \<Rightarrow> string option" where
  "find_pdf_link report_row =
     (case find pdf_href (anchors report_row) of
        None \<Rightarrow> None
      | Some h \<Rightarrow> h)"

subsection \<open>The environment\<close>

text \<open>
  The library functions and the answers of the outside. \<open>strptime_ymd\<close> is
  \<open>datetime.strptime(s, '%Y-%m-%d')\<close> and \<open>strptime_dby\<close> is
  \<open>datetime.strptime(s, '%d %b %Y')\<close>, \<open>None\<close> standing for \<open>ValueError\<close>;
  \<open>str_strip\<close> is \<open>str.strip\<close>. \<open>requests_get\<close> gives for a URL the exception
  \<open>requests.get\<close> raises or the status code and body of the response.
  \<open>service_auth\<close> and \<open>chrome_start\<close> give the exception raised by the Drive
  authentication and by the start of the browser, if any. \<open>clickable\<close> tells whether the
  wait for a link containing the given text succeeds, \<open>rows_visible\<close> whether the wait
  for a visible row of the table with the given identifier succeeds, and \<open>page_source\<close>
  gives the parsed page once the tab with the given label has been clicked.
\<close>

record env =
  strptime_ymd :: "string \<Rightarrow> datetime option"
  strptime_dby :: "string \<Rightarrow> datetime option"
  str_strip :: "string \<Rightarrow> string"
  requests_get :: "string \<Rightarrow> error + nat \<times> string"
  service_auth :: "error option"
  chrome_start :: "error option"
  clickable :: "string \<Rightarrow> bool"
  rows_visible :: "string \<Rightarrow> bool"
  page_source :: "string \<Rightarrow> soup"

subsection \<open>The world\<close>

text \<open>The lines the script prints, one constructor for each \<open>print\<close> of scraper.py.\<close>

datatype line =
    Script_started
  | Script_finished
  | Usage
  | Step1_authenticating
  | Authentication_successful
  | Could_not_authenticate error
  | Starting_scrape string
  | Navigating
  | Clicking_financials
  | Critical_error error
  | Browser_closed
  | Dashes
  | Starting_process string
  | StepA_clicking string
  | StepB_parsing
  | Found_valid_report string
  | Downloading_temporarily
  | Reached_end_of_range
  | No_new_reports string string
  | Error_occurred string error
  | Uploading_to_path string string
  | Found_existing_folder string
  | Folder_not_found_creating string
  | File_uploaded string

text \<open>The calls to the outside that leave no other mark in the world.\<close>

datatype effect =
    ServiceAuth
  | ChromeStart
  | DriverGet string
  | Click string
  | DriverQuit
  | HttpGet string

text \<open>
  The local file system: the paths that name a directory, and the content of each path
  that names a regular file. Paths are relative to the working directory and compared
  as strings; two spellings of one path are not identified.
\<close>

record filesystem =
  dirs :: "string set"
  files :: "string \<rightharpoonup> string"

text \<open>
  The Drive: its items in order of creation; \<open>faults\<close> says for each coming API request
  whether it fails (none fails once the list is used up).
\<close>

datatype file_id = Root | Fid nat

record drive_file =
  fid :: file_id
  title :: string
  is_folder :: bool
  parents :: "file_id list"
  trashed :: bool
  content :: string

record drive =
  items :: "drive_file list"
  faults :: "bool list"

record world =
  console :: "line list"
  effects :: "effect list"
  fs :: filesystem
  gdrive :: drive

definition print :: "line \<Rightarrow> world \<Rightarrow> world" where
  "print l w = w\<lparr>console := console w @ [l]\<rparr>"

definition perform :: "effect \<Rightarrow> world \<Rightarrow> world" where
  "perform e w = w\<lparr>effects := effects w @ [e]\<rparr>"

subsection \<open>File system calls\<close>

text \<open>\<open>os.makedirs(p, exist_ok=True)\<close> for a path of one component.\<close>

definition os_makedirs :: "string \<Rightarrow> filesystem \<Rightarrow> error + filesystem" where
  "os_makedirs p f =
     (if p \<in> dirs f then Inr f
      else if files f p \<noteq> None then Inl FileExistsError
      else Inr (f\<lparr>dirs := insert p (dirs f)\<rparr>))"

text \<open>\<open>with open(p, 'wb') as f: f.write(data)\<close>.\<close>

definition write_file :: "string \<Rightarrow> string \<Rightarrow> filesystem \<Rightarrow> error + filesystem" where
  "write_file p data f =
     (if p \<in> dirs f then Inl IsADirectoryError
      else if os_path_dirname p \<noteq> [] \<and> os_path_dirname p \<notin> dirs f then Inl FileNotFoundError
      else Inr (f\<lparr>files := (files f)(p \<mapsto> data)\<rparr>))"

text \<open>\<open>os.remove(p)\<close>.\<close>

definition os_remove :: "string \<Rightarrow> filesystem \<Rightarrow> error + filesystem" where
  "os_remove p f =
     (if files f p = None then Inl FileNotFoundError
      else Inr (f\<lparr>files := (files f)(p := None)\<rparr>))"

subsection \<open>Drive requests\<close>

definition api_request :: "drive \<Rightarrow> bool \<times> drive" where
  "api_request d =
     (case faults d of
        [] \<Rightarrow> (True, d)
      | b # bs \<Rightarrow> (\<not> b, d\<lparr>faults := bs\<rparr>))"

text \<open>
  \<open>drive.ListFile({'q': query, ...}).GetList()\<close> with the query of
  \<open>get_or_create_folder\<close>: the folders that have the given parent and title and are
  not in the bin, in the order of the Drive. The script builds the query text by
  interpolating the title and the parent between quotes; the model takes the query as
  the Drive reads it when neither holds a quote, and answers from the items the Drive
  has at that moment (a folder just created is found by the next query).
\<close>

definition folder_matches :: "file_id \<Rightarrow> string \<Rightarrow> drive_file \<Rightarrow> bool" where
  "folder_matches parent_folder_id folder_name f =
     (parent_folder_id \<in> set (parents f) \<and> is_folder f \<and> title f = folder_name \<and> \<not> trashed f)"

definition ListFile :: "file_id \<Rightarrow> string \<Rightarrow> drive \<Rightarrow> (error + drive_file list) \<times> drive" where
  "ListFile parent_folder_id folder_name d =
     (case api_request d of
        (ok, d') \<Rightarrow>
          if ok then (Inr (filter (folder_matches parent_folder_id folder_name) (items d')), d')
          else (Inl ApiRequestError, d'))"

fun id_num :: "file_id \<Rightarrow> nat" where
  "id_num Root = 0"
| "id_num (Fid n) = n"

definition fresh_id :: "drive_file list \<Rightarrow> file_id" where
  "fresh_id its = Fid (Suc (fold max (map (\<lambda>f. id_num (fid f)) its) 0))"

text \<open>
  \<open>drive.CreateFile(metadata)\<close> followed by \<open>.Upload(...)\<close>: the Drive stores the item
  under a new identifier, which the object then carries as \<open>['id']\<close>.
\<close>

definition Upload :: "string \<Rightarrow> bool \<Rightarrow> file_id \<Rightarrow> string \<Rightarrow> drive \<Rightarrow> (error + file_id) \<times> drive" where
  "Upload name folder parent data d =
     (case api_request d of
        (ok, d') \<Rightarrow>
          if ok then
            (let i = fresh_id (items d') in
             (Inr i, d'\<lparr>items := items d' @
                [\<lparr>fid = i, title = name, is_folder = folder, parents = [parent],
                  trashed = False, content = data\<rparr>]\<rparr>))
          else (Inl ApiRequestError, d'))"

subsection \<open>get_or_create_folder and upload_to_drive\<close>

text \<open>
  \<open>get_or_create_folder(drive, folder_name, parent_folder_id)\<close>, lines 35 to 47: list the
  folders of that title under that parent; return the identifier of the first one if the
  list is not empty, else create the folder and return its new identifier.
\<close>

definition get_or_create_folder :: "string \<Rightarrow> file_id \<Rightarrow> world \<Rightarrow> (error + file_id) \<times> world" where
  "get_or_create_folder folder_name parent_folder_id w =
     (case ListFile parent_folder_id folder_name (gdrive w) of
        (Inl e, d) \<Rightarrow> (Inl e, w\<lparr>gdrive := d\<rparr>)
      | (Inr file_list, d) \<Rightarrow>
          (case file_list of
             f # _ \<Rightarrow> (Inr (fid f), print (Found_existing_folder folder_name) (w\<lparr>gdrive := d\<rparr>))
           | [] \<Rightarrow>
               (let w1 = print (Folder_not_found_creating folder_name) (w\<lparr>gdrive := d\<rparr>) in
                case Upload folder_name True parent_folder_id [] (gdrive w1) of
                  (Inl e, d') \<Rightarrow> (Inl e, w1\<lparr>gdrive := d'\<rparr>)
                | (Inr i, d') \<Rightarrow> (Inr i, w1\<lparr>gdrive := d'\<rparr>))))"

text \<open>
  \<open>upload_to_drive(drive, file_path, company_code, report_type)\<close>, lines 49 to 61.
  \<open>SetContentFile\<close> opens the local file, so a missing file raises.
\<close>

definition upload_to_drive :: "string \<Rightarrow> string \<Rightarrow> string \<Rightarrow> world \<Rightarrow> (error + unit) \<times> world" where
  "upload_to_drive file_path company_code report_type w0 =
     (let w1 = print (Uploading_to_path company_code report_type) w0 in
      case get_or_create_folder ''CSE Reports'' Root w1 of
        (Inl e, w2) \<Rightarrow> (Inl e, w2)
      | (Inr root_folder_id, w2) \<Rightarrow>
          (case get_or_create_folder company_code root_folder_id w2 of
             (Inl e, w3) \<Rightarrow> (Inl e, w3)
           | (Inr company_folder_id, w3) \<Rightarrow>
               (let report_type_folder_name = report_type @ '' Reports'' in
                case get_or_create_folder report_type_folder_name company_folder_id w3 of
                  (Inl e, w4) \<Rightarrow> (Inl e, w4)
                | (Inr destination_folder_id, w4) \<Rightarrow>
                    (let file_name = os_path_basename file_path in
                     case files (fs w4) file_path of
                       None \<Rightarrow> (Inl FileNotFoundError, w4)
                     | Some data \<Rightarrow>
                         (case Upload file_name False destination_folder_id data (gdrive w4) of
                            (Inl e, d) \<Rightarrow> (Inl e, w4\<lparr>gdrive := d\<rparr>)
                          | (Inr i, d) \<Rightarrow>
                              (Inr (), print (File_uploaded file_name) (w4\<lparr>gdrive := d\<rparr>)))))))"

subsection \<open>download_report\<close>

text \<open>
  Lines 102 to 120, the body of the loop for a row that passed the cutoff and has a
  link: name the local file, fetch the document, write it, upload it, remove it.
  \<open>raise_for_status\<close> raises for a status code from 400 to 599.
\<close>

definition fetch_and_upload ::
  "env \<Rightarrow> string \<Rightarrow> string \<Rightarrow> datetime \<Rightarrow> string \<Rightarrow> world \<Rightarrow> (error + unit) \<times> world" where
  "fetch_and_upload env company_code report_type date_obj download_url w0 =
     (let formatted_date = strftime_ymd date_obj;
          temp_download_dir = ''temp_reports'' in
      case os_makedirs temp_download_dir (fs w0) of
        Inl e \<Rightarrow> (Inl e, w0)
      | Inr f1 \<Rightarrow>
          (let local_filename = formatted_date @ ''-'' @ company_code @ ''.pdf'';
               file_path = os_path_join temp_download_dir local_filename;
               w1 = print Downloading_temporarily
                      (print (Found_valid_report local_filename) (w0\<lparr>fs := f1\<rparr>));
               w2 = perform (HttpGet download_url) w1 in
           case requests_get env download_url of
             Inl e \<Rightarrow> (Inl e, w2)
           | Inr (status, body) \<Rightarrow>
               if 400 \<le> status \<and> status < 600 then (Inl (HTTPError status), w2)
               else
                 (case write_file file_path body (fs w2) of
                    Inl e \<Rightarrow> (Inl e, w2)
                  | Inr f2 \<Rightarrow>
                      (case upload_to_drive file_path company_code report_type (w2\<lparr>fs := f2\<rparr>) of
                         (Inl e, w3) \<Rightarrow> (Inl e, w3)
                       | (Inr u, w3) \<Rightarrow>
                           (case os_remove file_path (fs w3) of
                              Inl e \<Rightarrow> (Inl e, w3)
                            | Inr f3 \<Rightarrow> (Inr (), w3\<lparr>fs := f3\<rparr>))))))"

text \<open>
  Lines 90 to 123, the loop over the rows, with the counter \<open>downloads_found\<close>.
  \<open>continue\<close> is the recursive call on the remaining rows, \<open>break\<close> returns the counter.
\<close>

fun report_rows ::
  "env \<Rightarrow> string \<Rightarrow> string \<Rightarrow> datetime \<Rightarrow> tr list \<Rightarrow> nat \<Rightarrow> world \<Rightarrow> (error + nat) \<times> world" where
  "report_rows env company_code report_type cutoff_date [] downloads_found w =
     (Inr downloads_found, w)"
| "report_rows env company_code report_type cutoff_date (report_row # rest) downloads_found w =
     (let columns = tds report_row in
      if length columns < 2 then
        report_rows env company_code report_type cutoff_date rest downloads_found w
      else
        (case contents (columns ! 0) of
           [] \<Rightarrow> (Inl IndexError, w)
         | Tag # _ \<Rightarrow> (Inl TypeError, w)
         | NavigableString s # _ \<Rightarrow>
             (let uploaded_date_str = str_strip env s in
              case strptime_dby env uploaded_date_str of
                None \<Rightarrow> report_rows env company_code report_type cutoff_date rest downloads_found w
              | Some date_obj \<Rightarrow>
                  if date_obj \<ge> cutoff_date then
                    (case find_pdf_link report_row of
                       None \<Rightarrow>
                         report_rows env company_code report_type cutoff_date rest downloads_found w
                     | Some download_url \<Rightarrow>
                         (case fetch_and_upload env company_code report_type date_obj download_url w of
                            (Inl e, w') \<Rightarrow> (Inl e, w')
                          | (Inr u, w') \<Rightarrow>
                              report_rows env company_code report_type cutoff_date rest
                                (downloads_found + 1) w'))
                  else (Inr downloads_found, print Reached_end_of_range w))))"

text \<open>Lines 68 to 70: the tab label and the table identifier of a report type.\<close>

definition report_tab :: "string \<Rightarrow> (string \<times> string) option" where
  "report_tab report_type =
     (if report_type = ''Quarterly'' then Some (''Quarterly Reports'', ''21b'')
      else if report_type = ''Annual'' then Some (''Annual Reports '', ''11b'')
      else None)"

text \<open>
  Lines 66 to 126, the \<open>try\<close> block of \<open>download_report\<close>. The right injection is the
  value a \<open>return\<close> (or the end of the block) gives back.
\<close>

definition download_report_try ::
  "env \<Rightarrow> string \<Rightarrow> string \<Rightarrow> string \<Rightarrow> world \<Rightarrow> (error + pyval) \<times> world" where
  "download_report_try env company_code report_type start_date_str w0 =
     (let w1 = print (Starting_process report_type) (print Dashes w0) in
      case report_tab report_type of
        None \<Rightarrow> (Inr PyNone, w1)
      | Some (tab_name, table_id) \<Rightarrow>
          (let w2 = print (StepA_clicking tab_name) w1 in
           if \<not> clickable env tab_name then (Inl TimeoutException, w2)
           else
             (let w3 = perform (Click tab_name) w2 in
              if \<not> rows_visible env table_id then (Inl TimeoutException, w3)
              else
                (let w4 = print StepB_parsing w3 in
                 case page_source env tab_name table_id of
                   None \<Rightarrow> (Inr PyNone, w4)
                 | Some report_container \<Rightarrow>
                     (case tbody report_container of
                        None \<Rightarrow> (Inl AttributeError, w4)
                      | Some all_report_rows \<Rightarrow>
                          if all_report_rows = [] then (Inr PyNone, w4)
                          else
                            (case strptime_ymd env start_date_str of
                               None \<Rightarrow> (Inl ValueError, w4)
                             | Some cutoff_date \<Rightarrow>
                                 (case report_rows env company_code report_type cutoff_date
                                         all_report_rows 0 w4 of
                                    (Inl e, w5) \<Rightarrow> (Inl e, w5)
                                  | (Inr downloads_found, w5) \<Rightarrow>
                                      (Inr PyNone,
                                       if downloads_found = 0
                                       then print (No_new_reports report_type
                                                     (strftime_ymd cutoff_date)) w5
                                       else w5))))))))"

text \<open>
  \<open>download_report\<close>, lines 63 to 129: the \<open>try\<close> block under
  \<open>except Exception as e\<close>, which prints the error. The result is the returned value
  and the world.
\<close>

definition download_report ::
  "env \<Rightarrow> string \<Rightarrow> string \<Rightarrow> string \<Rightarrow> world \<Rightarrow> pyval \<times> world" where
  "download_report env company_code report_type start_date_str w =
     (case download_report_try env company_code report_type start_date_str w of
        (Inl e, w') \<Rightarrow> (PyNone, print (Error_occurred report_type e) w')
      | (Inr v, w') \<Rightarrow> (v, w'))"

subsection \<open>run_downloader and the entry point\<close>

definition base_url :: string where
  "base_url = ''https://www.cse.lk/pages/company-profile/company-profile.component.html?symbol=''"

text \<open>
  \<open>run_downloader(company_code, start_date_str)\<close>, lines 131 to 169. The browser is
  quit in the \<open>finally\<close> block when it was started. \<open>driver.get\<close> and the click
  sent by \<open>execute_script\<close> are taken to succeed; the waits, the authentication and
  the start of the browser may raise.
\<close>

definition run_downloader :: "env \<Rightarrow> string \<Rightarrow> string \<Rightarrow> world \<Rightarrow> world" where
  "run_downloader env company_code start_date_str w0 =
     (let w1 = perform ServiceAuth (print Step1_authenticating w0) in
      case service_auth env of
        Some e \<Rightarrow> print (Could_not_authenticate e) w1
      | None \<Rightarrow>
          (let w2 = perform ChromeStart (print Authentication_successful w1) in
           case chrome_start env of
             Some e \<Rightarrow> print Browser_closed (print (Critical_error e) w2)
           | None \<Rightarrow>
               (let w3 = print (Starting_scrape company_code) w2;
                    company_url = base_url @ company_code;
                    w4 = perform (DriverGet company_url) (print Navigating w3);
                    w5 = print Clicking_financials w4 in
                if \<not> clickable env ''Financials''
                then print Browser_closed
                       (perform DriverQuit (print (Critical_error TimeoutException) w5))
                else
                  (let w6 = perform (Click ''Financials'') w5;
                       w7 = snd (download_report env company_code ''Quarterly'' start_date_str w6);
                       w8 = snd (download_report env company_code ''Annual'' start_date_str w7)
                   in print Browser_closed (perform DriverQuit w8)))))"

text \<open>Lines 171 to 179, with \<open>sys.argv\<close> as a list of strings.\<close>

definition main :: "env \<Rightarrow> string list \<Rightarrow> world \<Rightarrow> world" where
  "main env argv w0 =
     (let w1 = print Script_started w0;
          w2 = (if length argv = 3
                then (let company_code_arg = argv ! 1;
                          start_date_arg = argv ! 2
                      in run_downloader env company_code_arg start_date_arg w1)
                else print Usage w1)
      in print Script_finished w2)"

subsection \<open>Predicates of the properties\<close>


text \<open>The documents in the Drive: its items that are not folders.\<close>

definition uploaded :: "drive \<Rightarrow> drive_file list" where
  "uploaded d = filter (\<lambda>f. \<not> is_folder f) (items d)"

text \<open>
  The published date of a row as the loop reads it: the row has two cells or more, the
  first child of its first cell is a string, and the stripped string parses. A row is a
  record when it has such a date and a qualifying link.
\<close>

definition row_date :: "env \<Rightarrow> tr \<Rightarrow> datetime option" where
  "row_date env report_row =
     (if length (tds report_row) < 2 then None
      else case contents (tds report_row ! 0) of
             NavigableString s # others \<Rightarrow> strptime_dby env (str_strip env s)
           | _ \<Rightarrow> None)"

definition is_record :: "env \<Rightarrow> tr \<Rightarrow> bool" where
  "is_record env report_row =
     (row_date env report_row \<noteq> None \<and> find_pdf_link report_row \<noteq> None)"

definition on_or_after :: "env \<Rightarrow> datetime \<Rightarrow> tr \<Rightarrow> bool" where
  "on_or_after env cutoff_date report_row =
     (case row_date env report_row of None \<Rightarrow> False | Some d \<Rightarrow> cutoff_date \<le> d)"

text \<open>The rows are in descending order of their dates.\<close>

definition newest_first :: "env \<Rightarrow> tr list \<Rightarrow> bool" where
  "newest_first env rows =
     sorted_wrt (\<lambda>a b. the (row_date env b) \<le> the (row_date env a)) rows"

text \<open>
  An item lies under the path of a company and a report type: its only parent is a
  folder titled \<open><report type> Reports\<close>, under a folder titled with the company
  code, under a folder titled \<open>CSE Reports\<close>, under the root.
\<close>

definition placed :: "drive_file list \<Rightarrow> string \<Rightarrow> string \<Rightarrow> drive_file \<Rightarrow> bool" where
  "placed its company_code report_type f =
     list_ex (\<lambda>g1. folder_matches Root ''CSE Reports'' g1 \<and>
       list_ex (\<lambda>g2. folder_matches (fid g1) company_code g2 \<and>
         list_ex (\<lambda>g3. folder_matches (fid g2) (report_type @ '' Reports'') g3 \<and>
                        parents f = [fid g3]) its) its) its"

text \<open>Console lines among which the critical error line of \<open>run_downloader\<close> is absent.\<close>

definition quiet :: "line list \<Rightarrow> bool" where
  "quiet out = list_all (\<lambda>l. case l of Critical_error e \<Rightarrow> False | _ \<Rightarrow> True) out"

text \<open>The local path of the document of a given date, as lines 103 to 108 build it.\<close>

definition local_path :: "string \<Rightarrow> datetime \<Rightarrow> string" where
  "local_path company_code date_obj =
     os_path_join ''temp_reports'' (strftime_ymd date_obj @ ''-'' @ company_code @ ''.pdf'')"


text \<open>The world in which \<open>run_downloader\<close> calls \<open>download_report\<close> for the first time.\<close>

definition financials_opened :: "string \<Rightarrow> world \<Rightarrow> world" where
  "financials_opened company_code w =
     perform (Click ''Financials'') (print Clicking_financials
       (perform (DriverGet (base_url @ company_code)) (print Navigating
         (print (Starting_scrape company_code) (perform ChromeStart
           (print Authentication_successful (perform ServiceAuth
             (print Step1_authenticating w))))))))"

subsection \<open>Sample inputs\<close>

text \<open>
  A row of two cells, the first holding the date text, with the given anchors; an
  environment in which authentication, the browser and every wait succeed, the
  Quarterly table holds a report of 1 March 2024 and one of 1 December 2023, and there
  is no Annual container; and a world with an empty console, disk and Drive.
\<close>

definition example_row :: "string \<Rightarrow> string option list \<Rightarrow> tr" where
  "example_row date_text hrefs =
     \<lparr>tds = [\<lparr>contents = [NavigableString date_text]\<rparr>, \<lparr>contents = [NavigableString ''Report'']\<rparr>],
      anchors = hrefs\<rparr>"

definition example_strip :: "string \<Rightarrow> string" where
  "example_strip s =
     rev (dropWhile (\<lambda>c. c = CHR '' '') (rev (dropWhile (\<lambda>c. c = CHR '' '') s)))"

definition example_rows :: "tr list" where
  "example_rows =
     [example_row '' 01 Mar 2024 '' [Some ''/cdn/a.pdf''],
      example_row ''01 Dec 2023'' [Some ''/cdn/b.pdf'']]"

definition example_env :: env where
  "example_env =
     \<lparr>strptime_ymd = (\<lambda>s. if s = ''2024-01-01'' then Some (2024, 1, 1) else None),
      strptime_dby = (\<lambda>s. if s = ''01 Mar 2024'' then Some (2024, 3, 1)
                           else if s = ''01 Dec 2023'' then Some (2023, 12, 1)
                           else None),
      str_strip = example_strip,
      requests_get = (\<lambda>u. if u = ''/cdn/a.pdf'' then Inr (200, ''%PDF-a'')
                           else if u = ''/cdn/b.pdf'' then Inr (200, ''%PDF-b'')
                           else Inr (404, [])),
      service_auth = None,
      chrome_start = None,
      clickable = (\<lambda>t. True),
      rows_visible = (\<lambda>t. True),
      page_source = (\<lambda>t i. if i = ''21b'' then Some \<lparr>tbody = Some example_rows\<rparr> else None)\<rparr>"

text \<open>
  The same with a Quarterly table of three reports of 1 March 2024, the second of which
  has a link that the server answers with status 404.
\<close>

definition example_failing_env :: env where
  "example_failing_env =
     example_env\<lparr>page_source := (\<lambda>t i.
       if i = ''21b''
       then Some \<lparr>tbody = Some [example_row ''01 Mar 2024'' [Some ''/cdn/a.pdf''],
                                 example_row ''01 Mar 2024'' [Some ''/cdn/missing.pdf''],
                                 example_row ''01 Mar 2024'' [Some ''/cdn/b.pdf'']]\<rparr>
       else None)\<rparr>"

definition example_world :: world where
  "example_world =
     \<lparr>console = [], effects = [],
      fs = \<lparr>dirs = {}, files = Map.empty\<rparr>,
      gdrive = \<lparr>items = [], faults = []\<rparr>\<rparr>"

section \<open>Properties\<close>

lemmas run_defs = main_def run_downloader_def download_report_def download_report_try_def
  report_tab_def fetch_and_upload_def upload_to_drive_def get_or_create_folder_def ListFile_def
  Upload_def api_request_def fresh_id_def folder_matches_def os_makedirs_def write_file_def
  os_remove_def os_path_join_def os_path_basename_def os_path_dirname_def strftime_ymd_def
  pad2_def pad4_def digit_def find_pdf_link_def pdf_href_def endswith_def print_def perform_def
  base_url_def Let_def

lemmas example_defs = example_env_def example_world_def example_rows_def example_row_def
  example_strip_def

subsection \<open>The Drive requests\<close>


lemma ListFile_items: "ListFile p n d = (r, d') \<Longrightarrow> items d' = items d"
  by (auto simp: ListFile_def api_request_def split: list.splits if_splits)

lemma ListFile_result:
  "ListFile p n d = (Inr l, d') \<Longrightarrow> l = filter (folder_matches p n) (items d)"
  by (auto simp: ListFile_def api_request_def split: list.splits if_splits)

lemma Upload_result:
  "Upload name folder parent data d = (Inr i, d') \<Longrightarrow>
   items d' = items d @ [\<lparr>fid = i, title = name, is_folder = folder, parents = [parent],
                          trashed = False, content = data\<rparr>]"
  by (auto simp: Upload_def api_request_def Let_def split: list.splits if_splits)

lemma Upload_error: "Upload name folder parent data d = (Inl e, d') \<Longrightarrow> items d' = items d"
  by (auto simp: Upload_def api_request_def Let_def split: list.splits if_splits)

text \<open>What a call of \<open>get_or_create_folder\<close> that returns does to the items of the Drive.\<close>

lemma get_or_create_folder_cases:
  assumes "get_or_create_folder name parent w = (Inr i, w1)"
  shows "(\<exists>f l. filter (folder_matches parent name) (items (gdrive w)) = f # l \<and> i = fid f
              \<and> items (gdrive w1) = items (gdrive w))
       \<or> (filter (folder_matches parent name) (items (gdrive w)) = []
          \<and> items (gdrive w1) = items (gdrive w) @
               [\<lparr>fid = i, title = name, is_folder = True, parents = [parent],
                 trashed = False, content = []\<rparr>])"
proof (cases "ListFile parent name (gdrive w)")
  case (Pair r d)
  show ?thesis
  proof (cases r)
    case (Inl e)
    with Pair assms show ?thesis by (simp add: get_or_create_folder_def)
  next
    case (Inr l)
    note l = ListFile_result [OF Pair [unfolded Inr]] and d = ListFile_items [OF Pair]
    show ?thesis
    proof (cases l)
      case Nil
      with Pair Inr assms obtain d' where
        up: "Upload name True parent [] d = (Inr i, d')" and w1: "gdrive w1 = d'"
        by (auto simp: get_or_create_folder_def print_def Let_def split: prod.splits sum.splits)
      from Upload_result [OF up] d w1 l Nil show ?thesis by simp
    next
      case (Cons f l')
      with Pair Inr assms have "i = fid f" "gdrive w1 = d"
        by (auto simp: get_or_create_folder_def print_def)
      with l [symmetric] d Cons show ?thesis by simp
    qed
  qed
qed

subsection \<open>What each function does to the world\<close>

lemma quiet_simps [simp]:
  "quiet []"
  "quiet (xs @ ys) \<longleftrightarrow> quiet xs \<and> quiet ys"
  "quiet (l # xs) \<longleftrightarrow> (\<forall>e. l \<noteq> Critical_error e) \<and> quiet xs"
  by (auto simp: quiet_def split: line.splits)

lemma uploaded_append [simp]: "uploaded (d\<lparr>items := xs @ ys\<rparr>) = filter (\<lambda>f. \<not> is_folder f) xs @ filter (\<lambda>f. \<not> is_folder f) ys"
  by (simp add: uploaded_def)

lemma placed_mono:
  "placed its cc rt f \<Longrightarrow> set its \<subseteq> set its' \<Longrightarrow> placed its' cc rt f"
  unfolding placed_def list_ex_iff by blast

lemma get_or_create_folder_world:
  assumes "get_or_create_folder name parent w = (r, w')"
  shows "\<exists>out d. w' = w\<lparr>console := console w @ out, gdrive := d\<rparr> \<and> quiet out
          \<and> (items d = items (gdrive w)
             \<or> (\<exists>i. items d = items (gdrive w) @
                   [\<lparr>fid = i, title = name, is_folder = True, parents = [parent],
                     trashed = False, content = []\<rparr>]))"
proof (cases "ListFile parent name (gdrive w)")
  case (Pair r1 d1)
  note d1 = ListFile_items [OF Pair]
  show ?thesis
  proof (cases r1)
    case (Inl e)
    with Pair assms have "w' = w\<lparr>console := console w @ [], gdrive := d1\<rparr>"
      by (auto simp: get_or_create_folder_def)
    with d1 show ?thesis by (intro exI [of _ "[]"] exI [of _ d1]) simp
  next
    case (Inr l)
    show ?thesis
    proof (cases l)
      case (Cons f l')
      with Pair Inr assms
      have "w' = w\<lparr>console := console w @ [Found_existing_folder name], gdrive := d1\<rparr>"
        by (auto simp: get_or_create_folder_def print_def)
      with d1 show ?thesis
        by (intro exI [of _ "[Found_existing_folder name]"] exI [of _ d1]) simp
    next
      case Nil
      obtain r2 d2 where up: "Upload name True parent [] d1 = (r2, d2)"
        by (cases "Upload name True parent [] d1")
      with Pair Inr Nil assms
      have w': "w' = w\<lparr>console := console w @ [Folder_not_found_creating name], gdrive := d2\<rparr>"
        by (auto simp: get_or_create_folder_def print_def Let_def split: sum.splits)
      have "items d2 = items (gdrive w)
             \<or> (\<exists>i. items d2 = items (gdrive w) @
                   [\<lparr>fid = i, title = name, is_folder = True, parents = [parent],
                     trashed = False, content = []\<rparr>])"
      proof (cases r2)
        case (Inl e)
        with up d1 show ?thesis by (auto dest: Upload_error)
      next
        case (Inr i)
        with up d1 show ?thesis by (auto dest: Upload_result)
      qed
      with w' show ?thesis
        by (intro exI [of _ "[Folder_not_found_creating name]"] exI [of _ d2]) simp
    qed
  qed
qed

lemma get_or_create_folder_frame:
  assumes "get_or_create_folder name parent w = (r, w')"
  shows "fs w' = fs w" and "effects w' = effects w"
    and "\<exists>out. console w' = console w @ out \<and> quiet out"
    and "set (items (gdrive w)) \<subseteq> set (items (gdrive w'))"
    and "uploaded (gdrive w') = uploaded (gdrive w)"
  using get_or_create_folder_world [OF assms]
  by (auto simp: uploaded_def)

lemma get_or_create_folder_found:
  assumes "get_or_create_folder name parent w = (Inr i, w')"
  shows "\<exists>g \<in> set (items (gdrive w')). folder_matches parent name g \<and> fid g = i"
  using get_or_create_folder_cases [OF assms]
proof (elim disjE exE conjE)
  fix f l
  assume a: "filter (folder_matches parent name) (items (gdrive w)) = f # l" "i = fid f"
    "items (gdrive w') = items (gdrive w)"
  then have "f \<in> set (filter (folder_matches parent name) (items (gdrive w)))" by simp
  then have "f \<in> set (items (gdrive w))" "folder_matches parent name f" by auto
  with a show ?thesis by auto
next
  assume "items (gdrive w') = items (gdrive w) @
            [\<lparr>fid = i, title = name, is_folder = True, parents = [parent],
              trashed = False, content = []\<rparr>]"
  then show ?thesis by (auto simp: folder_matches_def)
qed


lemma upload_to_drive_world:
  assumes "upload_to_drive path cc rt w = (r, w')"
  shows "fs w' = fs w" and "effects w' = effects w"
    and "\<exists>out. console w' = console w @ out \<and> quiet out"
    and "set (items (gdrive w)) \<subseteq> set (items (gdrive w'))"
    and "(\<exists>e. r = Inl e) \<and> uploaded (gdrive w') = uploaded (gdrive w)
       \<or> r = Inr () \<and> (\<exists>f. uploaded (gdrive w') = uploaded (gdrive w) @ [f]
            \<and> title f = os_path_basename path \<and> placed (items (gdrive w')) cc rt f
            \<and> files (fs w) path = Some (content f))"
proof -
  let ?w1 = "print (Uploading_to_path cc rt) w"
  have w1: "fs ?w1 = fs w" "effects ?w1 = effects w" "gdrive ?w1 = gdrive w"
    "console ?w1 = console w @ [Uploading_to_path cc rt]"
    by (simp_all add: print_def)
  obtain r1 w2 where g1: "get_or_create_folder ''CSE Reports'' Root ?w1 = (r1, w2)"
    by (cases "get_or_create_folder ''CSE Reports'' Root ?w1")
  note f1 = get_or_create_folder_frame [OF g1]
  have all: "fs w' = fs w \<and> effects w' = effects w
    \<and> (\<exists>out. console w' = console w @ out \<and> quiet out)
    \<and> set (items (gdrive w)) \<subseteq> set (items (gdrive w'))
    \<and> ((\<exists>e. r = Inl e) \<and> uploaded (gdrive w') = uploaded (gdrive w)
       \<or> r = Inr () \<and> (\<exists>f. uploaded (gdrive w') = uploaded (gdrive w) @ [f]
            \<and> title f = os_path_basename path \<and> placed (items (gdrive w')) cc rt f
            \<and> files (fs w) path = Some (content f)))"
  proof (cases r1)
    case (Inl e)
    with g1 assms have "r = Inl e" "w' = w2"
      by (auto simp: upload_to_drive_def Let_def)
    with f1 w1 show ?thesis by auto
  next
    case root: (Inr root_folder_id)
    obtain r2 w3 where g2: "get_or_create_folder cc root_folder_id w2 = (r2, w3)"
      by (cases "get_or_create_folder cc root_folder_id w2")
    note f2 = get_or_create_folder_frame [OF g2]
    show ?thesis
    proof (cases r2)
      case (Inl e)
      with g1 g2 root assms have "r = Inl e" "w' = w3"
        by (auto simp: upload_to_drive_def Let_def)
      with f1 f2 w1 show ?thesis by auto
    next
      case company: (Inr company_folder_id)
      obtain r3 w4 where
        g3: "get_or_create_folder (rt @ '' Reports'') company_folder_id w3 = (r3, w4)"
        by (cases "get_or_create_folder (rt @ '' Reports'') company_folder_id w3")
      note f3 = get_or_create_folder_frame [OF g3]
      have frame4: "fs w4 = fs w" "effects w4 = effects w"
        "\<exists>out. console w4 = console w @ out \<and> quiet out"
        "set (items (gdrive w)) \<subseteq> set (items (gdrive w4))"
        "uploaded (gdrive w4) = uploaded (gdrive w)"
        using f1 f2 f3 w1 by auto
      show ?thesis
      proof (cases r3)
        case (Inl e)
        with g1 g2 g3 root company assms have "r = Inl e" "w' = w4"
          by (auto simp: upload_to_drive_def Let_def)
        with frame4 show ?thesis by auto
      next
        case dest: (Inr destination_folder_id)
        from get_or_create_folder_found [OF g1 [unfolded root]] obtain k1 where
          k1: "k1 \<in> set (items (gdrive w2))" "folder_matches Root ''CSE Reports'' k1"
            "fid k1 = root_folder_id" by auto
        from get_or_create_folder_found [OF g2 [unfolded company]] obtain k2 where
          k2: "k2 \<in> set (items (gdrive w3))" "folder_matches root_folder_id cc k2"
            "fid k2 = company_folder_id" by auto
        from get_or_create_folder_found [OF g3 [unfolded dest]] obtain k3 where
          k3: "k3 \<in> set (items (gdrive w4))"
            "folder_matches company_folder_id (rt @ '' Reports'') k3"
            "fid k3 = destination_folder_id" by auto
        have in4: "k1 \<in> set (items (gdrive w4))" "k2 \<in> set (items (gdrive w4))"
          using k1 k2 f2 f3 by auto
        show ?thesis
        proof (cases "files (fs w4) path")
          case None
          with g1 g2 g3 root company dest assms have "r = Inl FileNotFoundError" "w' = w4"
            by (auto simp: upload_to_drive_def Let_def)
          with frame4 show ?thesis by auto
        next
          case (Some data)
          obtain r5 d5 where
            up: "Upload (os_path_basename path) False destination_folder_id data (gdrive w4)
                  = (r5, d5)"
            by (cases "Upload (os_path_basename path) False destination_folder_id data (gdrive w4)")
          show ?thesis
          proof (cases r5)
            case (Inl e)
            with g1 g2 g3 root company dest Some up assms
            have "r = Inl e" "w' = w4\<lparr>gdrive := d5\<rparr>"
              by (auto simp: upload_to_drive_def Let_def)
            with frame4 Upload_error [OF up [unfolded Inl]] show ?thesis
              by (auto simp: uploaded_def)
          next
            case (Inr i)
            let ?f = "\<lparr>fid = i, title = os_path_basename path, is_folder = False,
                        parents = [destination_folder_id], trashed = False, content = data\<rparr>"
            from g1 g2 g3 root company dest Some up Inr assms
            have r: "r = Inr ()"
              and w': "w' = print (File_uploaded (os_path_basename path)) (w4\<lparr>gdrive := d5\<rparr>)"
              by (auto simp: upload_to_drive_def Let_def)
            note it = Upload_result [OF up [unfolded Inr]]
            from w' it have items': "items (gdrive w') = items (gdrive w4) @ [?f]"
              by (simp add: print_def)
            have "placed (items (gdrive w')) cc rt ?f"
              unfolding placed_def list_ex_iff
              using k1 k2 k3 in4 items' by auto
            moreover have "uploaded (gdrive w') = uploaded (gdrive w) @ [?f]"
              using items' frame4(5) by (simp add: uploaded_def)
            moreover have "files (fs w) path = Some (content ?f)"
              using Some frame4(1) by simp
            moreover have "fs w' = fs w" "effects w' = effects w"
              "set (items (gdrive w)) \<subseteq> set (items (gdrive w'))"
              using w' frame4 items' by (auto simp: print_def)
            moreover have "\<exists>out. console w' = console w @ out \<and> quiet out"
            proof -
              from frame4(3) obtain out where "console w4 = console w @ out" "quiet out"
                by auto
              with w' have "console w' = console w @ (out @ [File_uploaded (os_path_basename path)])
                  \<and> quiet (out @ [File_uploaded (os_path_basename path)])"
                by (simp add: print_def)
              then show ?thesis by blast
            qed
            ultimately show ?thesis using r
              by (intro conjI disjI2 exI [of _ ?f]) simp_all
          qed
        qed
      qed
    qed
  qed
  then show "fs w' = fs w" and "effects w' = effects w"
    and "\<exists>out. console w' = console w @ out \<and> quiet out"
    and "set (items (gdrive w)) \<subseteq> set (items (gdrive w'))"
    and "(\<exists>e. r = Inl e) \<and> uploaded (gdrive w') = uploaded (gdrive w)
       \<or> r = Inr () \<and> (\<exists>f. uploaded (gdrive w') = uploaded (gdrive w) @ [f]
            \<and> title f = os_path_basename path \<and> placed (items (gdrive w')) cc rt f
            \<and> files (fs w) path = Some (content f))"
    by blast+
qed


lemma fetch_and_upload_world:
  assumes "fetch_and_upload env cc rt d url w = (r, w')"
  shows "(\<exists>out. console w' = console w @ out \<and> quiet out)
    \<and> set (items (gdrive w)) \<subseteq> set (items (gdrive w'))
    \<and> (effects w' = effects w \<and> (\<exists>e. r = Inl e) \<and> gdrive w' = gdrive w
         \<or> effects w' = effects w @ [HttpGet url])
    \<and> (\<exists>new. uploaded (gdrive w') = uploaded (gdrive w) @ new \<and> length new \<le> 1
          \<and> (r = Inr () \<longrightarrow> length new = 1)
          \<and> (\<forall>f \<in> set new. title f = os_path_basename (local_path cc d)
                \<and> placed (items (gdrive w')) cc rt f))
    \<and> (r = Inr () \<longrightarrow> files (fs w') (local_path cc d) = None)"
proof (cases "os_makedirs ''temp_reports'' (fs w)")
  case (Inl e)
  with assms have "r = Inl e" "w' = w"
    by (auto simp: fetch_and_upload_def Let_def)
  then show ?thesis by (auto intro: exI [of _ "[]"])
next
  case f1: (Inr f1)
  let ?path = "local_path cc d"
  let ?w2 = "perform (HttpGet url) (print Downloading_temporarily
      (print (Found_valid_report (strftime_ymd d @ ''-'' @ cc @ ''.pdf'')) (w\<lparr>fs := f1\<rparr>)))"
  have w2: "effects ?w2 = effects w @ [HttpGet url]" "gdrive ?w2 = gdrive w"
    "console ?w2 = console w @ [Found_valid_report (strftime_ymd d @ ''-'' @ cc @ ''.pdf''),
       Downloading_temporarily]" "fs ?w2 = f1"
    by (simp_all add: print_def perform_def)
  have stop: ?thesis if "w' = ?w2" "r = Inl e" for e
    using that w2 by (auto intro: exI [of _ "[]"])
  show ?thesis
  proof (cases "requests_get env url")
    case (Inl e)
    with assms f1 have "r = Inl e" "w' = ?w2"
      by (auto simp: fetch_and_upload_def Let_def local_path_def)
    then show ?thesis by (intro stop)
  next
    case (Inr resp)
    obtain status body where resp: "resp = (status, body)" by (cases resp)
    show ?thesis
    proof (cases "400 \<le> status \<and> status < 600")
      case True
      with assms f1 Inr resp have "r = Inl (HTTPError status)" "w' = ?w2"
        by (auto simp: fetch_and_upload_def Let_def local_path_def)
      then show ?thesis by (intro stop)
    next
      case ok: False
      show ?thesis
      proof (cases "write_file ?path body (fs ?w2)")
        case (Inl e)
        with assms f1 Inr resp ok have "r = Inl e" "w' = ?w2"
          by (auto simp: fetch_and_upload_def Let_def local_path_def)
        then show ?thesis by (intro stop)
      next
        case f2: (Inr f2)
        obtain r3 w3 where up: "upload_to_drive ?path cc rt (?w2\<lparr>fs := f2\<rparr>) = (r3, w3)"
          by (cases "upload_to_drive ?path cc rt (?w2\<lparr>fs := f2\<rparr>)")
        note u = upload_to_drive_world [OF up]
        from u(3) w2 obtain out where
          out: "console w3 = console w @ ([Found_valid_report (strftime_ymd d @ ''-'' @ cc @ ''.pdf''),
             Downloading_temporarily] @ out)" "quiet out" by auto
        then have con3: "\<exists>out. console w3 = console w @ out \<and> quiet out"
          by (intro exI [of _ "[Found_valid_report (strftime_ymd d @ ''-'' @ cc @ ''.pdf''),
             Downloading_temporarily] @ out"]) simp
        have base3: "set (items (gdrive w)) \<subseteq> set (items (gdrive w3))"
          "effects w3 = effects w @ [HttpGet url]" "fs w3 = f2"
          using u w2 by auto
        show ?thesis
        proof (cases r3)
          case (Inl e)
          with assms f1 Inr resp ok f2 up have r: "r = Inl e" "w' = w3"
            by (auto simp: fetch_and_upload_def Let_def local_path_def)
          from u(5) Inl w2 have "uploaded (gdrive w3) = uploaded (gdrive w)" by auto
          with r con3 base3 show ?thesis by (auto intro: exI [of _ "[]"])
        next
          case fin: (Inr un)
          with u(5) w2 obtain f where
            f: "uploaded (gdrive w3) = uploaded (gdrive w) @ [f]"
              "title f = os_path_basename ?path" "placed (items (gdrive w3)) cc rt f"
            by auto
          have new: "\<exists>new. uploaded (gdrive w3) = uploaded (gdrive w) @ new \<and> length new \<le> 1
              \<and> length new = 1
              \<and> (\<forall>f \<in> set new. title f = os_path_basename ?path
                    \<and> placed (items (gdrive w3)) cc rt f)"
            using f by (intro exI [of _ "[f]"]) simp
          show ?thesis
          proof (cases "os_remove ?path (fs w3)")
            case (Inl e)
            with assms f1 Inr resp ok f2 up fin have r: "r = Inl e" "w' = w3"
              by (auto simp: fetch_and_upload_def Let_def local_path_def)
            with con3 base3 new show ?thesis by auto
          next
            case f3: (Inr f3)
            with assms f1 Inr resp ok f2 up fin have r: "r = Inr ()" "w' = w3\<lparr>fs := f3\<rparr>"
              by (auto simp: fetch_and_upload_def Let_def local_path_def)
            from f3 have "files f3 ?path = None"
              by (auto simp: os_remove_def split: if_splits)
            with r con3 base3 new show ?thesis by auto
          qed
        qed
      qed
    qed
  qed
qed

subsection \<open>The loop over the rows\<close>

lemma older_row_stops:
  assumes "row_date env report_row = Some d" and "d < cutoff_date"
  shows "report_rows env company_code report_type cutoff_date (report_row # rest) n w =
         (Inr n, print Reached_end_of_range w)"
  using assms
  by (auto simp: row_date_def Let_def split: if_splits list.splits node.splits)

lemma newer_row_processed:
  assumes "row_date env report_row = Some d" and "cutoff_date \<le> d"
    and "find_pdf_link report_row = Some url"
  shows "report_rows env company_code report_type cutoff_date (report_row # rest) n w =
         (case fetch_and_upload env company_code report_type d url w of
            (Inl e, w1) \<Rightarrow> (Inl e, w1)
          | (Inr u, w1) \<Rightarrow> report_rows env company_code report_type cutoff_date rest (n + 1) w1)"
  using assms
  by (auto simp: row_date_def Let_def split: if_splits list.splits node.splits)

lemma report_rows_step:
  "report_rows env cc rt cutoff (row # rest) n w = report_rows env cc rt cutoff rest n w
   \<or> (\<exists>e. report_rows env cc rt cutoff (row # rest) n w = (Inl e, w))
   \<or> report_rows env cc rt cutoff (row # rest) n w = (Inr n, print Reached_end_of_range w)
   \<or> (\<exists>d url. row_date env row = Some d \<and> cutoff \<le> d \<and> find_pdf_link row = Some url)"
  by (auto simp: row_date_def Let_def split: if_splits list.splits node.splits option.splits)

lemma report_rows_world:
  assumes "report_rows env cc rt cutoff rows n w = (r, w')"
  shows "(\<exists>out. console w' = console w @ out \<and> quiet out)
    \<and> set (items (gdrive w)) \<subseteq> set (items (gdrive w'))
    \<and> (\<exists>new. uploaded (gdrive w') = uploaded (gdrive w) @ new
          \<and> (\<forall>n'. r = Inr n' \<longrightarrow> n' = n + length new)
          \<and> (\<forall>f \<in> set new. placed (items (gdrive w')) cc rt f
                \<and> (\<exists>row \<in> set rows. \<exists>d. row_date env row = Some d \<and> cutoff \<le> d
                      \<and> title f = os_path_basename (local_path cc d))))"
  using assms
proof (induction rows arbitrary: n w)
  case Nil
  then show ?case by (auto intro: exI [of _ "[]"])
next
  case (Cons row rest)
  let ?P = "\<lambda>rows n w. (\<exists>out. console w' = console w @ out \<and> quiet out)
    \<and> set (items (gdrive w)) \<subseteq> set (items (gdrive w'))
    \<and> (\<exists>new. uploaded (gdrive w') = uploaded (gdrive w) @ new
          \<and> (\<forall>n'. r = Inr n' \<longrightarrow> n' = n + length new)
          \<and> (\<forall>f \<in> set new. placed (items (gdrive w')) cc rt f
                \<and> (\<exists>row \<in> set rows. \<exists>d. row_date env row = Some d \<and> cutoff \<le> d
                      \<and> title f = os_path_basename (local_path cc d))))"
  have weaken: "?P (row # rest) n w" if "?P rest n w" for n w
    using that by (elim conjE exE, intro conjI exI) (assumption | auto)+
  from report_rows_step [of env cc rt cutoff row rest n w]
  consider
      (skip) "report_rows env cc rt cutoff (row # rest) n w = report_rows env cc rt cutoff rest n w"
    | (raise) e where "report_rows env cc rt cutoff (row # rest) n w = (Inl e, w)"
    | (break) "report_rows env cc rt cutoff (row # rest) n w = (Inr n, print Reached_end_of_range w)"
    | (process) d url where "row_date env row = Some d" "cutoff \<le> d" "find_pdf_link row = Some url"
    by blast
  then show ?case
  proof cases
    case skip
    with Cons.prems have "report_rows env cc rt cutoff rest n w = (r, w')" by simp
    from Cons.IH [OF this] show ?thesis by (rule weaken)
  next
    case raise
    with Cons.prems have "r = Inl e" "w' = w" by auto
    then show ?thesis by (auto intro: exI [of _ "[]"])
  next
    case break
    with Cons.prems have "r = Inr n" "w' = print Reached_end_of_range w" by auto
    then show ?thesis by (auto simp: print_def intro: exI [of _ "[]"] exI [of _ "[Reached_end_of_range]"])
  next
    case process
    obtain r1 w1 where fu: "fetch_and_upload env cc rt d url w = (r1, w1)"
      by (cases "fetch_and_upload env cc rt d url w")
    from fetch_and_upload_world [OF fu] obtain out1 new1 where
      one: "console w1 = console w @ out1" "quiet out1"
        "set (items (gdrive w)) \<subseteq> set (items (gdrive w1))"
        "uploaded (gdrive w1) = uploaded (gdrive w) @ new1" "length new1 \<le> 1"
        "r1 = Inr () \<longrightarrow> length new1 = 1"
        "\<forall>f \<in> set new1. title f = os_path_basename (local_path cc d)
              \<and> placed (items (gdrive w1)) cc rt f"
      by blast
    note eq = newer_row_processed [OF process, where company_code = cc and report_type = rt
        and rest = rest and n = n and w = w, unfolded fu]
    have src: "\<exists>row' \<in> set (row # rest). \<exists>d'. row_date env row' = Some d' \<and> cutoff \<le> d'
        \<and> title f = os_path_basename (local_path cc d')" if "f \<in> set new1" for f
      using process one(7) that by (intro bexI [of _ row] exI [of _ d]) simp_all
    show ?thesis
    proof (cases r1)
      case (Inl e)
      with eq Cons.prems have r: "r = Inl e" "w' = w1" by auto
      have "\<forall>f \<in> set new1. placed (items (gdrive w')) cc rt f
                \<and> (\<exists>row \<in> set (row # rest). \<exists>d. row_date env row = Some d \<and> cutoff \<le> d
                      \<and> title f = os_path_basename (local_path cc d))"
        using one(7) src r by blast
      moreover have "\<forall>n'. r = Inr n' \<longrightarrow> n' = n + length new1" using r by simp
      ultimately show ?thesis using one(1-4) r by blast
    next
      case (Inr u)
      with eq Cons.prems have "report_rows env cc rt cutoff rest (n + 1) w1 = (r, w')" by simp
      from Cons.IH [OF this] obtain out2 new2 where
        two: "console w' = console w1 @ out2" "quiet out2"
          "set (items (gdrive w1)) \<subseteq> set (items (gdrive w'))"
          "uploaded (gdrive w') = uploaded (gdrive w1) @ new2"
          "\<forall>n'. r = Inr n' \<longrightarrow> n' = n + 1 + length new2"
          "\<forall>f \<in> set new2. placed (items (gdrive w')) cc rt f
                \<and> (\<exists>row \<in> set rest. \<exists>d. row_date env row = Some d \<and> cutoff \<le> d
                      \<and> title f = os_path_basename (local_path cc d))"
        by blast
      from Inr one(6) have len1: "length new1 = 1" by simp
      have "placed (items (gdrive w')) cc rt f
                \<and> (\<exists>row \<in> set (row # rest). \<exists>d. row_date env row = Some d \<and> cutoff \<le> d
                      \<and> title f = os_path_basename (local_path cc d))"
        if "f \<in> set (new1 @ new2)" for f
      proof (cases "f \<in> set new1")
        case True
        with one(7) have "placed (items (gdrive w1)) cc rt f" by blast
        from placed_mono [OF this two(3)] src [OF True] show ?thesis by blast
      next
        case False
        with that have "f \<in> set new2" by simp
        with two(6) have "placed (items (gdrive w')) cc rt f"
          and "\<exists>row \<in> set rest. \<exists>d. row_date env row = Some d \<and> cutoff \<le> d
                  \<and> title f = os_path_basename (local_path cc d)" by blast+
        then show ?thesis by (metis list.set_intros(2))
      qed
      then have "\<forall>f \<in> set (new1 @ new2). placed (items (gdrive w')) cc rt f
                \<and> (\<exists>row \<in> set (row # rest). \<exists>d. row_date env row = Some d \<and> cutoff \<le> d
                      \<and> title f = os_path_basename (local_path cc d))"
        by blast
      moreover have "\<forall>n'. r = Inr n' \<longrightarrow> n' = n + length (new1 @ new2)"
        using two(5) len1 by simp
      moreover have "uploaded (gdrive w') = uploaded (gdrive w) @ (new1 @ new2)"
        using one(4) two(4) by simp
      moreover have "console w' = console w @ (out1 @ out2) \<and> quiet (out1 @ out2)"
        using one(1,2) two(1,2) by simp
      moreover have "set (items (gdrive w)) \<subseteq> set (items (gdrive w'))"
        using one(3) two(3) by blast
      ultimately show ?thesis by blast
    qed
  qed
qed


lemma stop_ignores_rest:
  assumes "row_date env older = Some d" and "d < cutoff"
  shows "report_rows env cc rt cutoff (before @ older # rest) n w =
         report_rows env cc rt cutoff (before @ older # rest') n w"
proof (induction before arbitrary: n w)
  case Nil
  show ?case by (simp only: append_Nil older_row_stops [OF assms])
next
  case (Cons a before)
  show ?case
    by (simp add: Let_def Cons.IH
          split: list.splits node.splits option.splits prod.splits sum.splits)
qed

lemma newest_first_filter:
  assumes "newest_first env rows" and "\<forall>r \<in> set rows. is_record env r"
  shows "filter (on_or_after env cutoff) rows = takeWhile (on_or_after env cutoff) rows"
  using assms
proof (induction rows)
  case Nil
  then show ?case by simp
next
  case (Cons a rows)
  from Cons.prems have ih: "filter (on_or_after env cutoff) rows = takeWhile (on_or_after env cutoff) rows"
    by (intro Cons.IH) (auto simp: newest_first_def)
  show ?case
  proof (cases "on_or_after env cutoff a")
    case True
    with ih show ?thesis by simp
  next
    case False
    from Cons.prems obtain da where da: "row_date env a = Some da"
      by (auto simp: is_record_def)
    with False have lt: "da < cutoff" by (simp add: on_or_after_def)
    have "\<not> on_or_after env cutoff b" if "b \<in> set rows" for b
    proof -
      from Cons.prems that obtain db where db: "row_date env b = Some db"
        by (auto simp: is_record_def)
      from Cons.prems that have "the (row_date env b) \<le> the (row_date env a)"
        by (auto simp: newest_first_def)
      with da db lt show ?thesis by (simp add: on_or_after_def)
    qed
    then have "filter (on_or_after env cutoff) rows = []" by (simp add: filter_empty_conv)
    with False show ?thesis by simp
  qed
qed

lemma report_rows_records:
  assumes "\<forall>r \<in> set rows. is_record env r"
    and "report_rows env cc rt cutoff rows n w = (r, w')"
  shows "(\<exists>k \<le> length (takeWhile (on_or_after env cutoff) rows).
            effects w' = effects w @
              map (\<lambda>r. HttpGet (the (find_pdf_link r)))
                (take k (takeWhile (on_or_after env cutoff) rows)))
       \<and> (\<forall>n'. r = Inr n' \<longrightarrow>
            effects w' = effects w @
              map (\<lambda>r. HttpGet (the (find_pdf_link r))) (takeWhile (on_or_after env cutoff) rows)
          \<and> n' = n + length (takeWhile (on_or_after env cutoff) rows))"
  using assms
proof (induction rows arbitrary: n w)
  case Nil
  then show ?case by auto
next
  case (Cons a rows)
  let ?g = "\<lambda>r. HttpGet (the (find_pdf_link r))"
  let ?tw = "takeWhile (on_or_after env cutoff) rows"
  from Cons.prems obtain d url where a: "row_date env a = Some d" "find_pdf_link a = Some url"
    by (auto simp: is_record_def)
  show ?case
  proof (cases "cutoff \<le> d")
    case False
    then have "d < cutoff" by simp
    from older_row_stops [OF a(1) this] Cons.prems(2)
    have "r = Inr n" "w' = print Reached_end_of_range w" by auto
    moreover from False a have "\<not> on_or_after env cutoff a" by (simp add: on_or_after_def)
    ultimately show ?thesis by (simp add: print_def)
  next
    case True
    with a have P: "on_or_after env cutoff a" by (simp add: on_or_after_def)
    obtain r1 w1 where fu: "fetch_and_upload env cc rt d url w = (r1, w1)"
      by (cases "fetch_and_upload env cc rt d url w")
    note eq = newer_row_processed [OF a(1) True a(2), where company_code = cc
        and report_type = rt and rest = rows and n = n and w = w, unfolded fu]
    from fetch_and_upload_world [OF fu]
    have e1: "effects w1 = effects w \<and> (\<exists>e. r1 = Inl e) \<or> effects w1 = effects w @ [HttpGet url]"
      by blast
    show ?thesis
    proof (cases r1)
      case (Inl e)
      with eq Cons.prems(2) have r: "r = Inl e" "w' = w1" by auto
      from e1 have "\<exists>k \<le> length (a # ?tw). effects w1 = effects w @ map ?g (take k (a # ?tw))"
      proof
        assume "effects w1 = effects w \<and> (\<exists>e. r1 = Inl e)"
        then show ?thesis by (intro exI [of _ 0]) simp
      next
        assume "effects w1 = effects w @ [HttpGet url]"
        with a show ?thesis by (intro exI [of _ 1]) simp
      qed
      with r P show ?thesis by simp
    next
      case (Inr u)
      with eq Cons.prems(2) have run: "report_rows env cc rt cutoff rows (n + 1) w1 = (r, w')"
        by simp
      from e1 Inr have e1': "effects w1 = effects w @ [HttpGet url]" by auto
      from Cons.prems(1) have "\<forall>r \<in> set rows. is_record env r" by simp
      note ih = Cons.IH [OF this run]
      from ih obtain k where
        k: "k \<le> length ?tw" "effects w' = effects w1 @ map ?g (take k ?tw)"
        by blast
      from ih have full: "\<forall>n'. r = Inr n' \<longrightarrow> effects w' = effects w1 @ map ?g ?tw
                      \<and> n' = n + 1 + length ?tw"
        by blast
      have "Suc k \<le> length (a # ?tw)"
        "effects w' = effects w @ map ?g (take (Suc k) (a # ?tw))"
        using k e1' a by simp_all
      then have "\<exists>k \<le> length (a # ?tw). effects w' = effects w @ map ?g (take k (a # ?tw))"
        by blast
      moreover have "\<forall>n'. r = Inr n' \<longrightarrow> effects w' = effects w @ map ?g (a # ?tw)
                      \<and> n' = n + length (a # ?tw)"
        using full e1' a by simp
      ultimately show ?thesis using P by simp
    qed
  qed
qed

subsection \<open>Folder resolution\<close>



subsection \<open>Rows of fewer than two cells\<close>

text \<open>
  Claim C9. A row with fewer than two \<open>td\<close> cells changes nothing: wherever it stands
  in the table, the loop gives the same result and the same world as on the table
  without it, whatever the row holds (its first cell is not read, its date is not
  parsed, its links are not looked up), whatever the cutoff, and the rows after it are
  processed as they would be without it.
\<close>

theorem short_row_skipped:
  "length (tds report_row) < 2 \<Longrightarrow>
   report_rows env company_code report_type cutoff_date (before @ report_row # rest) n w =
   report_rows env company_code report_type cutoff_date (before @ rest) n w"
  by (induction before arbitrary: n w)
     (auto simp: Let_def split: list.splits node.splits option.splits prod.splits sum.splits)

theorem short_row_skipped_witness:
  "length (tds \<lparr>tds = [\<lparr>contents = []\<rparr>], anchors = [None]\<rparr>) < 2
   \<and> report_rows example_env ''ABC'' ''Quarterly'' (2024, 1, 1)
       ([hd example_rows] @ \<lparr>tds = [\<lparr>contents = []\<rparr>], anchors = [None]\<rparr> # tl example_rows)
       0 example_world =
     report_rows example_env ''ABC'' ''Quarterly'' (2024, 1, 1)
       ([hd example_rows] @ tl example_rows) 0 example_world"
  using short_row_skipped [of "\<lparr>tds = [\<lparr>contents = []\<rparr>], anchors = [None]\<rparr>" example_env
      "''ABC''" "''Quarterly''" "(2024, 1, 1)" "[hd example_rows]" "tl example_rows" 0
      example_world]
  by simp

subsection \<open>A container without a table body\<close>

text \<open>
  Claim C10. When the tab and the rows of a report type are found and the parsed page
  has the container but the container has no \<open>tbody\<close>, the cycle raises
  \<open>AttributeError\<close> inside the \<open>try\<close> block, and \<open>download_report\<close> catches it: it
  prints the error line for the report type after the lines of the steps done so far
  and returns. Nothing else of the world changes. An empty table would have returned
  without the error line.
\<close>

theorem missing_tbody_is_reported:
  assumes "report_tab report_type = Some (tab_name, table_id)"
    and "clickable env tab_name"
    and "rows_visible env table_id"
    and "page_source env tab_name table_id = Some report_container"
    and "tbody report_container = None"
  shows "download_report_try env company_code report_type start_date_str w =
           (Inl AttributeError,
            print StepB_parsing (perform (Click tab_name) (print (StepA_clicking tab_name)
              (print (Starting_process report_type) (print Dashes w)))))
       \<and> download_report env company_code report_type start_date_str w =
           (PyNone,
            print (Error_occurred report_type AttributeError)
              (print StepB_parsing (perform (Click tab_name) (print (StepA_clicking tab_name)
                (print (Starting_process report_type) (print Dashes w))))))"
  using assms by (simp add: download_report_def download_report_try_def Let_def)

theorem missing_tbody_is_reported_witness:
  "report_tab ''Annual'' = Some (''Annual Reports '', ''11b'')
   \<and> download_report (example_env\<lparr>page_source := \<lambda>t i. Some \<lparr>tbody = None\<rparr>\<rparr>)
       ''ABC'' ''Annual'' ''2024-01-01'' example_world =
     (PyNone,
      example_world\<lparr>console := [Dashes, Starting_process ''Annual'',
                                StepA_clicking ''Annual Reports '', StepB_parsing,
                                Error_occurred ''Annual'' AttributeError],
                    effects := [Click ''Annual Reports '']\<rparr>)
   \<and> download_report (example_env\<lparr>page_source := \<lambda>t i. Some \<lparr>tbody = Some []\<rparr>\<rparr>)
       ''ABC'' ''Annual'' ''2024-01-01'' example_world =
     (PyNone,
      example_world\<lparr>console := [Dashes, Starting_process ''Annual'',
                                StepA_clicking ''Annual Reports '', StepB_parsing],
                    effects := [Click ''Annual Reports '']\<rparr>)"
proof -
  have t: "report_tab ''Annual'' = Some (''Annual Reports '', ''11b'')"
    by (simp add: report_tab_def)
  have e: "download_report (example_env\<lparr>page_source := \<lambda>t i. Some \<lparr>tbody = Some []\<rparr>\<rparr>)
       ''ABC'' ''Annual'' ''2024-01-01'' example_world =
     (PyNone,
      example_world\<lparr>console := [Dashes, Starting_process ''Annual'',
                                StepA_clicking ''Annual Reports '', StepB_parsing],
                    effects := [Click ''Annual Reports '']\<rparr>)"
    by (simp add: download_report_def download_report_try_def report_tab_def example_env_def
          example_world_def print_def perform_def Let_def)
  from missing_tbody_is_reported [of "''Annual''" "''Annual Reports ''" "''11b''"
      "example_env\<lparr>page_source := \<lambda>t i. Some \<lparr>tbody = None\<rparr>\<rparr>" "\<lparr>tbody = None\<rparr>"
      "''ABC''" "''2024-01-01''" example_world, OF t] t e
  show ?thesis
    by (simp add: example_env_def example_world_def print_def perform_def)
qed

subsection \<open>The cutoff\<close>

text \<open>
  Claim C1. Let every row of the table be a record (two cells or more, a date that
  parses, a link ending in \<open>.pdf\<close>) and let the rows be in descending order of date.
  Then the rows dated on or after the cutoff are a prefix of the table (the rows kept
  by the filter are the rows taken while the date is on or after the cutoff). The
  documents the loop fetches are, in order, those of an initial part of that prefix,
  and when the loop returns (no fetch, write or upload having raised) they are those of
  the whole prefix and the counter has grown by its length. When a first older record
  follows the prefix, whatever rows stand after it (records or not) the loop gives the
  same result and the same world: it stops at that record and reads nothing after it.
\<close>

theorem cutoff_filter_prefix:
  assumes "\<forall>r \<in> set rows. is_record env r"
    and "newest_first env rows"
    and "report_rows env company_code report_type cutoff_date rows n w = (r, w')"
  shows "filter (on_or_after env cutoff_date) rows = takeWhile (on_or_after env cutoff_date) rows
       \<and> (\<exists>k \<le> length (filter (on_or_after env cutoff_date) rows).
            effects w' = effects w @
              map (\<lambda>r. HttpGet (the (find_pdf_link r)))
                (take k (filter (on_or_after env cutoff_date) rows)))
       \<and> (\<forall>n'. r = Inr n' \<longrightarrow>
            effects w' = effects w @
              map (\<lambda>r. HttpGet (the (find_pdf_link r)))
                (filter (on_or_after env cutoff_date) rows)
          \<and> n' = n + length (filter (on_or_after env cutoff_date) rows))
       \<and> (\<forall>older rest rest'.
            rows = takeWhile (on_or_after env cutoff_date) rows @ older # rest \<longrightarrow>
            report_rows env company_code report_type cutoff_date
              (takeWhile (on_or_after env cutoff_date) rows @ older # rest') n w = (r, w'))"
proof -
  let ?P = "on_or_after env cutoff_date"
  note fl = newest_first_filter [OF assms(2,1), of cutoff_date]
  note rec = report_rows_records [OF assms(1,3)]
  have stop: "report_rows env company_code report_type cutoff_date
              (takeWhile ?P rows @ older # rest') n w = (r, w')"
    if rows: "rows = takeWhile ?P rows @ older # rest" for older rest rest'
  proof -
    have "older \<in> set rows" by (subst rows) simp
    with assms(1) obtain d where d: "row_date env older = Some d"
      by (auto simp: is_record_def)
    have "takeWhile ?P rows = takeWhile ?P (takeWhile ?P rows @ older # rest)"
      using rows by simp
    also have "\<dots> = takeWhile ?P rows @ takeWhile ?P (older # rest)"
      by (rule takeWhile_append2) (auto dest: set_takeWhileD)
    finally have "takeWhile ?P (older # rest) = []" by simp
    then have "\<not> ?P older" by (auto split: if_splits)
    with d have "d < cutoff_date" by (simp add: on_or_after_def)
    from stop_ignores_rest [OF d this, where cc = company_code and rt = report_type
        and before = "takeWhile ?P rows" and rest = rest' and rest' = rest and n = n and w = w]
    have "report_rows env company_code report_type cutoff_date (takeWhile ?P rows @ older # rest') n w
        = report_rows env company_code report_type cutoff_date rows n w"
      using rows by simp
    with assms(3) show ?thesis by simp
  qed
  from rec stop show ?thesis unfolding fl by blast
qed

theorem cutoff_filter_prefix_witness:
  "list_all (is_record example_env) example_rows
   \<and> newest_first example_env example_rows
   \<and> fst (report_rows example_env ''ABC'' ''Quarterly'' (2024, 1, 1) example_rows 0
           example_world) = Inr 1
   \<and> effects (snd (report_rows example_env ''ABC'' ''Quarterly'' (2024, 1, 1) example_rows 0
           example_world)) = [HttpGet ''/cdn/a.pdf'']
   \<and> filter (on_or_after example_env (2024, 1, 1)) example_rows = [hd example_rows]
   \<and> report_rows example_env ''ABC'' ''Quarterly'' (2024, 1, 1)
        ([hd example_rows] @ example_rows ! 1 #
           [\<lparr>tds = [\<lparr>contents = []\<rparr>, \<lparr>contents = []\<rparr>], anchors = []\<rparr>,
            example_row ''01 Mar 2024'' [Some ''/cdn/b.pdf'']])
        0 example_world =
      report_rows example_env ''ABC'' ''Quarterly'' (2024, 1, 1) example_rows 0 example_world"
proof -
  let ?R = "report_rows example_env ''ABC'' ''Quarterly'' (2024, 1, 1) example_rows 0
              example_world"
  let ?P = "on_or_after example_env (2024, 1, 1)"
  have recs: "\<forall>r \<in> set example_rows. is_record example_env r"
    by (simp add: is_record_def row_date_def run_defs example_defs)
  have desc: "newest_first example_env example_rows"
    by (simp add: newest_first_def row_date_def run_defs example_defs)
  have res: "fst ?R = Inr 1"
    by (simp add: run_defs example_defs)
  then have run: "?R = (Inr 1, snd ?R)"
    by (simp add: prod_eq_iff)
  have tw: "takeWhile ?P example_rows = [hd example_rows]"
    by (simp add: on_or_after_def row_date_def run_defs example_defs)
  have split: "example_rows = takeWhile ?P example_rows @ example_rows ! 1 # []"
    unfolding tw by (simp add: example_rows_def)
  from cutoff_filter_prefix [OF recs desc run]
  have 1: "effects (snd ?R) = effects example_world @
             map (\<lambda>r. HttpGet (the (find_pdf_link r))) (filter ?P example_rows)"
    and 2: "filter ?P example_rows = takeWhile ?P example_rows"
    and 3: "\<And>older rest rest'. example_rows = takeWhile ?P example_rows @ older # rest \<Longrightarrow>
            report_rows example_env ''ABC'' ''Quarterly'' (2024, 1, 1)
              (takeWhile ?P example_rows @ older # rest') 0 example_world = (Inr 1, snd ?R)"
    by blast+
  have e: "effects (snd ?R) = [HttpGet ''/cdn/a.pdf'']"
    unfolding 1 2 tw by (simp add: run_defs example_defs)
  from 3 [OF split] run recs desc res e 2 tw show ?thesis
    by (simp add: list_all_iff)
qed

subsection \<open>Malformed rows\<close>

text \<open>
  Claim C2, as amended. A row of two cells or more whose first cell begins with a
  string is left out, and the loop goes on with the rows after it as if the row were
  not there, when the stripped string does not parse as a date, or when it parses to a
  date on or after the cutoff and the row has no link ending in \<open>.pdf\<close>.
\<close>

theorem malformed_row_skipped:
  assumes "2 \<le> length (tds report_row)"
    and "contents (tds report_row ! 0) = NavigableString s # others"
    and "strptime_dby env (str_strip env s) = None
         \<or> (\<exists>d. strptime_dby env (str_strip env s) = Some d \<and> cutoff_date \<le> d
                \<and> find_pdf_link report_row = None)"
  shows "report_rows env company_code report_type cutoff_date (before @ report_row # rest) n w =
         report_rows env company_code report_type cutoff_date (before @ rest) n w"
proof (induction before arbitrary: n w)
  case Nil
  from assms show ?case by (auto simp: Let_def)
next
  case (Cons a before)
  then show ?case
    by (auto simp: Let_def split: list.splits node.splits option.splits prod.splits sum.splits)
qed

theorem malformed_row_skipped_witness:
  "2 \<le> length (tds (example_row ''n/a'' [Some ''/cdn/a.pdf'']))
   \<and> contents (tds (example_row ''n/a'' [Some ''/cdn/a.pdf'']) ! 0) = NavigableString ''n/a'' # []
   \<and> strptime_dby example_env (str_strip example_env ''n/a'') = None
   \<and> report_rows example_env ''ABC'' ''Quarterly'' (2024, 1, 1)
        ([] @ example_row ''n/a'' [Some ''/cdn/a.pdf''] # example_rows) 0 example_world =
      report_rows example_env ''ABC'' ''Quarterly'' (2024, 1, 1) ([] @ example_rows) 0
        example_world
   \<and> strptime_dby example_env (str_strip example_env ''01 Mar 2024'') = Some (2024, 3, 1)
   \<and> find_pdf_link (example_row ''01 Mar 2024'' [None, Some ''/page.html'']) = None
   \<and> report_rows example_env ''ABC'' ''Quarterly'' (2024, 1, 1)
        ([] @ example_row ''01 Mar 2024'' [None, Some ''/page.html''] # example_rows) 0
        example_world =
      report_rows example_env ''ABC'' ''Quarterly'' (2024, 1, 1) ([] @ example_rows) 0
        example_world"
proof -
  have a: "2 \<le> length (tds (example_row t hs))"
    "contents (tds (example_row t hs) ! 0) = NavigableString t # []" for t hs
    by (simp_all add: example_row_def)
  have b: "strptime_dby example_env (str_strip example_env ''n/a'') = None"
    by (simp add: example_defs)
  have c: "strptime_dby example_env (str_strip example_env ''01 Mar 2024'') = Some (2024, 3, 1)"
    "find_pdf_link (example_row ''01 Mar 2024'' [None, Some ''/page.html'']) = None"
    by (simp_all add: example_defs run_defs)
  from c have c': "strptime_dby example_env (str_strip example_env ''01 Mar 2024'') = None
         \<or> (\<exists>d. strptime_dby example_env (str_strip example_env ''01 Mar 2024'') = Some d
                \<and> (2024, 1, 1) \<le> d
                \<and> find_pdf_link (example_row ''01 Mar 2024'' [None, Some ''/page.html'']) = None)"
    by simp
  from malformed_row_skipped [OF a disjI1 [OF b], where company_code = "''ABC''"
      and report_type = "''Quarterly''" and cutoff_date = "(2024, 1, 1)" and before = "[]"
      and rest = example_rows and n = 0 and w = example_world]
    malformed_row_skipped [OF a c', where company_code = "''ABC''"
      and report_type = "''Quarterly''" and before = "[]"
      and rest = example_rows and n = 0 and w = example_world]
    a b c
  show ?thesis by simp
qed

text \<open>
  The claim as stated fails: a row without a link and dated before the cutoff ends the
  loop, and the record after it, dated after the cutoff, is not processed.
\<close>

theorem malformed_row_counterexample:
  "find_pdf_link (example_row ''01 Dec 2023'' []) = None
   \<and> report_rows example_env ''ABC'' ''Quarterly'' (2024, 1, 1)
       [example_row ''01 Dec 2023'' [], example_row ''01 Mar 2024'' [Some ''/cdn/a.pdf'']]
       0 example_world = (Inr 0, print Reached_end_of_range example_world)
   \<and> fst (report_rows example_env ''ABC'' ''Quarterly'' (2024, 1, 1)
       [example_row ''01 Mar 2024'' [Some ''/cdn/a.pdf'']] 0 example_world) = Inr 1"
  by (simp add: run_defs example_defs)

subsection \<open>The local file\<close>

text \<open>
  Claim C4 fails on the code when the upload fails. The sample run with a Drive whose
  first request fails: the document is fetched and written, \<open>upload_to_drive\<close> raises,
  the exception leaves the loop before \<open>os.remove\<close>, and the file is still on the disk
  when \<open>download_report\<close> has caught and printed the error.
\<close>

theorem artifact_left_after_failed_upload:
  "download_report example_env ''ABC'' ''Quarterly'' ''2024-01-01''
     (example_world\<lparr>gdrive := \<lparr>items = [], faults = [True]\<rparr>\<rparr>) =
   (PyNone,
    \<lparr>console = [Dashes, Starting_process ''Quarterly'', StepA_clicking ''Quarterly Reports'',
                StepB_parsing, Found_valid_report ''2024-03-01-ABC.pdf'',
                Downloading_temporarily, Uploading_to_path ''ABC'' ''Quarterly'',
                Error_occurred ''Quarterly'' ApiRequestError],
     effects = [Click ''Quarterly Reports'', HttpGet ''/cdn/a.pdf''],
     fs = \<lparr>dirs = {''temp_reports''},
            files = [''temp_reports/2024-03-01-ABC.pdf'' \<mapsto> ''%PDF-a'']\<rparr>,
     gdrive = \<lparr>items = [], faults = []\<rparr>\<rparr>)"
  by (simp add: run_defs example_defs)

text \<open>When the fetch, the write, the upload and the removal all succeed, the file is gone.\<close>

lemma artifact_removed_after_upload:
  "fetch_and_upload env company_code report_type date_obj download_url w = (Inr (), w') \<Longrightarrow>
   files (fs w') (local_path company_code date_obj) = None"
  using fetch_and_upload_world [of env company_code report_type date_obj download_url w "Inr ()" w']
  by simp

subsection \<open>The returned value\<close>

lemma download_report_try_returns:
  "download_report_try env cc rt s w = (Inr v, w') \<Longrightarrow> v = PyNone"
  by (auto simp: download_report_try_def Let_def
        split: option.splits if_splits prod.splits sum.splits)

text \<open>
  Claim C6, as amended. \<open>download_report\<close> returns \<open>None\<close> on every path. The
  number of uploads is kept in the counter of the loop and is not returned: when the
  loop returns, the counter has grown by the number of documents the loop added to the
  Drive. For an absent container and for a table body without rows the function
  returns \<open>None\<close> after the parsing step, with no error line printed and the Drive
  and the disk as they were.
\<close>

theorem download_report_returns_none:
  "fst (download_report env company_code report_type start_date_str w) = PyNone
   \<and> (report_rows env company_code report_type cutoff_date rows n w = (Inr n', w') \<longrightarrow>
        n \<le> n' \<and> length (uploaded (gdrive w')) = length (uploaded (gdrive w)) + (n' - n))
   \<and> (report_tab report_type = Some (tab_name, table_id) \<and> clickable env tab_name
        \<and> rows_visible env table_id
        \<and> (page_source env tab_name table_id = None
             \<or> page_source env tab_name table_id = Some \<lparr>tbody = Some []\<rparr>) \<longrightarrow>
        download_report env company_code report_type start_date_str w =
          (PyNone, print StepB_parsing (perform (Click tab_name) (print (StepA_clicking tab_name)
                     (print (Starting_process report_type) (print Dashes w))))))"
proof (intro conjI impI)
  show "fst (download_report env company_code report_type start_date_str w) = PyNone"
    by (auto simp: download_report_def split: prod.splits sum.splits
          dest: download_report_try_returns)
next
  assume "report_rows env company_code report_type cutoff_date rows n w = (Inr n', w')"
  from report_rows_world [OF this] obtain new where
    "uploaded (gdrive w') = uploaded (gdrive w) @ new" "n' = n + length new" by blast
  then show "n \<le> n'"
    and "length (uploaded (gdrive w')) = length (uploaded (gdrive w)) + (n' - n)" by simp_all
next
  assume "report_tab report_type = Some (tab_name, table_id) \<and> clickable env tab_name
        \<and> rows_visible env table_id
        \<and> (page_source env tab_name table_id = None
             \<or> page_source env tab_name table_id = Some \<lparr>tbody = Some []\<rparr>)"
  then show "download_report env company_code report_type start_date_str w =
          (PyNone, print StepB_parsing (perform (Click tab_name) (print (StepA_clicking tab_name)
                     (print (Starting_process report_type) (print Dashes w)))))"
    by (auto simp: download_report_def download_report_try_def Let_def)
qed


theorem download_report_returns_none_witness:
  "fst (download_report example_env ''ABC'' ''Quarterly'' ''2024-01-01'' example_world) = PyNone
   \<and> fst (report_rows example_env ''ABC'' ''Quarterly'' (2024, 1, 1) example_rows 0
           example_world) = Inr 1
   \<and> length (uploaded (gdrive (snd (report_rows example_env ''ABC'' ''Quarterly'' (2024, 1, 1)
        example_rows 0 example_world)))) = length (uploaded (gdrive example_world)) + (1 - 0)
   \<and> report_tab ''Annual'' = Some (''Annual Reports '', ''11b'')
   \<and> clickable example_env ''Annual Reports ''
   \<and> rows_visible example_env ''11b''
   \<and> page_source example_env ''Annual Reports '' ''11b'' = None
   \<and> download_report example_env ''ABC'' ''Annual'' ''2024-01-01'' example_world =
       (PyNone, print StepB_parsing (perform (Click ''Annual Reports '')
          (print (StepA_clicking ''Annual Reports '')
             (print (Starting_process ''Annual'') (print Dashes example_world)))))"
proof -
  let ?R = "report_rows example_env ''ABC'' ''Quarterly'' (2024, 1, 1) example_rows 0
              example_world"
  have res: "fst ?R = Inr 1"
    by (simp add: run_defs example_defs)
  then have run: "?R = (Inr 1, snd ?R)"
    by (simp add: prod_eq_iff)
  have tab: "report_tab ''Annual'' = Some (''Annual Reports '', ''11b'')"
    "clickable example_env ''Annual Reports ''" "rows_visible example_env ''11b''"
    "page_source example_env ''Annual Reports '' ''11b'' = None"
    by (simp_all add: report_tab_def example_env_def)
  from download_report_returns_none [of example_env "''ABC''" "''Quarterly''" "''2024-01-01''"
      example_world "(2024, 1, 1)" example_rows 0 1 "snd ?R"]
    download_report_returns_none [of example_env "''ABC''" "''Annual''" "''2024-01-01''"
      example_world _ _ _ _ _ "''Annual Reports ''" "''11b''"]
    res run tab
  show ?thesis by simp
qed

text \<open>
  The claim as stated fails: after a cycle that uploaded one document the returned value
  is \<open>None\<close>, not 1, and for an absent container it is \<open>None\<close>, not 0.
\<close>

theorem download_report_count_counterexample:
  "length (uploaded (gdrive (snd (download_report example_env ''ABC'' ''Quarterly''
      ''2024-01-01'' example_world)))) = 1
   \<and> fst (download_report example_env ''ABC'' ''Quarterly'' ''2024-01-01'' example_world)
       \<noteq> PyInt 1
   \<and> page_source example_env ''Annual Reports '' ''11b'' = None
   \<and> fst (download_report example_env ''ABC'' ''Annual'' ''2024-01-01'' example_world)
       \<noteq> PyInt 0"
  by (simp add: run_defs example_defs uploaded_def)

subsection \<open>The command line\<close>





subsection \<open>Failure of one cycle\<close>

lemma report_rows_console:
  assumes "report_rows env cc rt cutoff rows n w = (r, w')"
  shows "\<exists>out. console w' = console w @ out \<and> quiet out"
  using report_rows_world [OF assms] by blast

lemma download_report_try_console:
  assumes "download_report_try env cc rt s w = (r, w')"
  shows "\<exists>out. console w' = console w @ Dashes # Starting_process rt # out \<and> quiet out"
proof -
  let ?w1 = "print (Starting_process rt) (print Dashes w)"
  have w1: "console ?w1 = console w @ [Dashes, Starting_process rt]"
    by (simp add: print_def)
  have "\<exists>out. console w' = console ?w1 @ out \<and> quiet out"
    using assms
    by (auto simp: download_report_try_def Let_def print_def perform_def
        split: option.splits if_splits prod.splits sum.splits
        dest!: report_rows_console)
  then obtain out where "console w' = console ?w1 @ out" "quiet out" by blast
  with w1 show ?thesis by simp
qed

lemma download_report_console:
  assumes "download_report env cc rt s w = (v, w')"
  shows "\<exists>out. console w' = console w @ Dashes # Starting_process rt # out \<and> quiet out"
proof -
  obtain r w1 where t: "download_report_try env cc rt s w = (r, w1)"
    by (cases "download_report_try env cc rt s w")
  from download_report_try_console [OF t] obtain out where
    out: "console w1 = console w @ Dashes # Starting_process rt # out" "quiet out" by blast
  show ?thesis
  proof (cases r)
    case (Inl e)
    with t assms have "w' = print (Error_occurred rt e) w1"
      by (auto simp: download_report_def)
    with out have "console w' = console w @ Dashes # Starting_process rt # (out @ [Error_occurred rt e])
        \<and> quiet (out @ [Error_occurred rt e])"
      by (simp add: print_def)
    then show ?thesis by blast
  next
    case (Inr x)
    with t assms have "w' = w1" by (auto simp: download_report_def)
    with out show ?thesis by blast
  qed
qed


text \<open>
  Claim C5. An exception raised in the \<open>try\<close> block of \<open>download_report\<close>, for
  any report type and in any world, does not leave the function: the function prints
  the error line for that report type and returns. So, once the Drive authentication,
  the start of the browser and the click on the Financials tab have succeeded,
  \<open>run_downloader\<close> always runs the Quarterly cycle, then the Annual cycle on the
  world the Quarterly cycle left, then quits the browser. When the Quarterly cycle
  raises, the console shows its error line followed by the opening lines of the Annual
  cycle and ends with the line of the closed browser, with no critical error line in
  between; when the Annual cycle raises, the run ends the same way after its error line.
\<close>

theorem cycle_failure_isolated:
  assumes "service_auth env = None" and "chrome_start env = None"
    and "clickable env ''Financials''"
  shows "(\<forall>report_type e v v'.
            download_report_try env company_code report_type start_date_str v = (Inl e, v') \<longrightarrow>
            download_report env company_code report_type start_date_str v =
              (PyNone, print (Error_occurred report_type e) v'))
    \<and> run_downloader env company_code start_date_str w =
        print Browser_closed (perform DriverQuit
          (snd (download_report env company_code ''Annual'' start_date_str
            (snd (download_report env company_code ''Quarterly'' start_date_str
               (financials_opened company_code w))))))
    \<and> (\<forall>e w7. download_report_try env company_code ''Quarterly'' start_date_str
                  (financials_opened company_code w) = (Inl e, w7) \<longrightarrow>
          (\<exists>out. console (run_downloader env company_code start_date_str w) =
                   console w7 @ Error_occurred ''Quarterly'' e # Dashes #
                     Starting_process ''Annual'' # out @ [Browser_closed]
                 \<and> quiet out))
    \<and> (\<forall>e w8 w9. download_report_try env company_code ''Annual'' start_date_str w8 = (Inl e, w9)
          \<and> w8 = snd (download_report env company_code ''Quarterly'' start_date_str
                        (financials_opened company_code w)) \<longrightarrow>
          run_downloader env company_code start_date_str w =
            print Browser_closed (perform DriverQuit (print (Error_occurred ''Annual'' e) w9)))"
proof -
  let ?w6 = "financials_opened company_code w"
  let ?q = "download_report env company_code ''Quarterly'' start_date_str ?w6"
  let ?a = "download_report env company_code ''Annual'' start_date_str (snd ?q)"
  have caught: "download_report env company_code report_type start_date_str v =
              (PyNone, print (Error_occurred report_type e) v')"
    if "download_report_try env company_code report_type start_date_str v = (Inl e, v')"
    for report_type e v v'
    using that by (simp add: download_report_def)
  have run: "run_downloader env company_code start_date_str w =
        print Browser_closed (perform DriverQuit (snd ?a))"
    using assms by (simp add: run_downloader_def financials_opened_def Let_def)
  have quarterly: "\<exists>out. console (run_downloader env company_code start_date_str w) =
                   console w7 @ Error_occurred ''Quarterly'' e # Dashes #
                     Starting_process ''Annual'' # out @ [Browser_closed]
                 \<and> quiet out"
    if t: "download_report_try env company_code ''Quarterly'' start_date_str ?w6 = (Inl e, w7)"
    for e w7
  proof -
    from caught [OF t] have q: "snd ?q = print (Error_occurred ''Quarterly'' e) w7" by simp
    obtain v9 w9 where a: "?a = (v9, w9)" by (cases ?a)
    from download_report_console [OF a] q obtain out where
      "console w9 = console w7 @ Error_occurred ''Quarterly'' e # Dashes #
          Starting_process ''Annual'' # out" "quiet out"
      by (auto simp: print_def)
    with run a show ?thesis by (simp add: print_def perform_def)
  qed
  have annual: "run_downloader env company_code start_date_str w =
            print Browser_closed (perform DriverQuit (print (Error_occurred ''Annual'' e) w9))"
    if "download_report_try env company_code ''Annual'' start_date_str w8 = (Inl e, w9)"
      and "w8 = snd ?q" for e w8 w9
    using caught [OF that(1)] that(2) run by simp
  from caught run quarterly annual show ?thesis by blast
qed

theorem cycle_failure_isolated_witness:
  "service_auth example_failing_env = None
   \<and> chrome_start example_failing_env = None
   \<and> clickable example_failing_env ''Financials''
   \<and> fst (download_report_try example_failing_env ''ABC'' ''Quarterly'' ''2024-01-01''
        (financials_opened ''ABC'' example_world)) = Inl (HTTPError 404)
   \<and> console (run_downloader example_failing_env ''ABC'' ''2024-01-01'' example_world) =
       [Step1_authenticating, Authentication_successful, Starting_scrape ''ABC'', Navigating,
        Clicking_financials, Dashes, Starting_process ''Quarterly'',
        StepA_clicking ''Quarterly Reports'', StepB_parsing,
        Found_valid_report ''2024-03-01-ABC.pdf'', Downloading_temporarily,
        Uploading_to_path ''ABC'' ''Quarterly'', Folder_not_found_creating ''CSE Reports'',
        Folder_not_found_creating ''ABC'', Folder_not_found_creating ''Quarterly Reports'',
        File_uploaded ''2024-03-01-ABC.pdf'',
        Found_valid_report ''2024-03-01-ABC.pdf'', Downloading_temporarily,
        Error_occurred ''Quarterly'' (HTTPError 404),
        Dashes, Starting_process ''Annual'', StepA_clicking ''Annual Reports '', StepB_parsing,
        Browser_closed]
   \<and> length (uploaded (gdrive (run_downloader example_failing_env ''ABC'' ''2024-01-01''
        example_world))) = 1
   \<and> run_downloader example_failing_env ''ABC'' ''2024-01-01'' example_world =
        print Browser_closed (perform DriverQuit
          (snd (download_report example_failing_env ''ABC'' ''Annual'' ''2024-01-01''
            (snd (download_report example_failing_env ''ABC'' ''Quarterly'' ''2024-01-01''
               (financials_opened ''ABC'' example_world))))))"
proof -
  have s: "service_auth example_failing_env = None" "chrome_start example_failing_env = None"
    "clickable example_failing_env ''Financials''"
    by (simp_all add: example_failing_env_def example_env_def)
  have q: "fst (download_report_try example_failing_env ''ABC'' ''Quarterly'' ''2024-01-01''
        (financials_opened ''ABC'' example_world)) = Inl (HTTPError 404)"
    by (simp add: run_defs example_defs example_failing_env_def financials_opened_def)
  have c: "console (run_downloader example_failing_env ''ABC'' ''2024-01-01'' example_world) =
       [Step1_authenticating, Authentication_successful, Starting_scrape ''ABC'', Navigating,
        Clicking_financials, Dashes, Starting_process ''Quarterly'',
        StepA_clicking ''Quarterly Reports'', StepB_parsing,
        Found_valid_report ''2024-03-01-ABC.pdf'', Downloading_temporarily,
        Uploading_to_path ''ABC'' ''Quarterly'', Folder_not_found_creating ''CSE Reports'',
        Folder_not_found_creating ''ABC'', Folder_not_found_creating ''Quarterly Reports'',
        File_uploaded ''2024-03-01-ABC.pdf'',
        Found_valid_report ''2024-03-01-ABC.pdf'', Downloading_temporarily,
        Error_occurred ''Quarterly'' (HTTPError 404),
        Dashes, Starting_process ''Annual'', StepA_clicking ''Annual Reports '', StepB_parsing,
        Browser_closed]"
    by (simp add: run_defs example_defs example_failing_env_def)
  have u: "length (uploaded (gdrive (run_downloader example_failing_env ''ABC'' ''2024-01-01''
        example_world))) = 1"
    by (simp add: run_defs example_defs example_failing_env_def uploaded_def)
  from cycle_failure_isolated [OF s, of "''ABC''" "''2024-01-01''" example_world] s q c u
  show ?thesis by simp
qed

subsection \<open>Where a document is uploaded\<close>












end
